theory Spec2Isabelle
  imports Main "HOL-Library.Sublist"
begin

section \<open>The protocol adapter of pymeasure: values, errors, state\<close>

text \<open>
  The file \<^verbatim>\<open>pymeasure/adapters/protocol.py\<close> holds the function \<^verbatim>\<open>to_bytes\<close> and the class
  \<^verbatim>\<open>ProtocolAdapter\<close>, a test double that replays a list of (write, read) message pairs.

  A Python \<^verbatim>\<open>bytes\<close> or \<^verbatim>\<open>bytearray\<close> object is a list of bytes; a byte is a \<^typ>\<open>char\<close>
  (eight bits), so that \<^verbatim>\<open>b"CMD"\<close> is \<open>''CMD''\<close>. Nothing in the file mutates a byte buffer
  in place (\<^verbatim>\<open>+=\<close> on \<^verbatim>\<open>bytes\<close> and slicing build new objects), so the two types are
  one constructor. A Python \<^verbatim>\<open>str\<close> is a list of Unicode code points, each a \<^typ>\<open>nat\<close>.
\<close>

type_synonym bytes = "char list"
type_synonym pystr = "nat list"

text \<open>
  The values that \<^verbatim>\<open>to_bytes\<close> tells apart with \<^verbatim>\<open>isinstance\<close>:
  \<^item> \<open>Bytes\<close>: \<^verbatim>\<open>bytes\<close> or \<^verbatim>\<open>bytearray\<close>;
  \<^item> \<open>NoneV\<close>: \<^verbatim>\<open>None\<close>;
  \<^item> \<open>Str\<close>: \<^verbatim>\<open>str\<close>;
  \<^item> \<open>Seq\<close>: \<^verbatim>\<open>list\<close> or \<^verbatim>\<open>tuple\<close>, of any elements;
  \<^item> \<open>IntV\<close>: \<^verbatim>\<open>int\<close>, unbounded, with the text form of \<^verbatim>\<open>int\<close>;
  \<^item> \<open>IntSub v t\<close>: an instance of a subclass of \<^verbatim>\<open>int\<close> that has a text form of its own,
    so that \<^verbatim>\<open>isinstance(x, int)\<close> holds: its integer value \<open>v\<close> and the text \<open>t\<close> that
    \<^verbatim>\<open>str\<close> gives it. The type \<^verbatim>\<open>bool\<close> is such a subclass (\<open>BoolV\<close> below); an enumeration
    declared as \<^verbatim>\<open>class G(int, Enum)\<close> is another;
  \<^item> \<open>FloatV\<close>: \<^verbatim>\<open>float\<close>. Floating-point arithmetic is not modelled: the only thing the
    file does with a float is \<^verbatim>\<open>str\<close>, so a float is represented by the text \<^verbatim>\<open>str\<close>
    gives it;
  \<^item> \<open>Other n ix\<close>: a value whose type, named \<open>n\<close>, is none of the above nor a subclass of
    one of them; \<open>ix\<close> is the integer its method \<^verbatim>\<open>__index__\<close> returns, when its type has
    one (as the integer types of numpy have).
\<close>

datatype pyval =
    Bytes bytes
  | NoneV
  | Str pystr
  | Seq "pyval list"
  | IntV int
  | IntSub int pystr
  | FloatV pystr
  | Other string "int option"

text \<open>
  The three \<^verbatim>\<open>assert\<close> statements of the class, by their messages: the one of \<^verbatim>\<open>write\<close>
  reports the write buffer and the expected write of the current pair (as stored, not
  converted), the one of \<^verbatim>\<open>write_bytes\<close> reports the unread buffer.
\<close>

datatype assertion =
    WrittenNotExpected bytes pyval
  | UnreadResponse bytes
  | UnexpectedRead

text \<open>
  Every exception the file can raise:
  \<^item> \<open>TypeError_InvalidInput n\<close>: the \<^verbatim>\<open>raise TypeError\<close> of \<^verbatim>\<open>to_bytes\<close>, with the type name;
  \<^item> \<open>TypeError_NotInteger\<close>, \<open>ValueError_ByteRange\<close>: raised by the constructor \<^verbatim>\<open>bytes(...)\<close>
    for an element that is no integer, or an integer outside \<open>0..255\<close>;
  \<^item> \<open>ValueError_IntDigits\<close>: raised by \<^verbatim>\<open>str\<close> for an \<^verbatim>\<open>int\<close> with more decimal digits than
    the interpreter converts;
  \<^item> \<open>UnicodeEncodeError\<close>, \<open>UnicodeDecodeError\<close>: raised by \<^verbatim>\<open>encode\<close> and \<^verbatim>\<open>decode\<close>;
  \<^item> \<open>IndexError\<close>: \<^verbatim>\<open>comm_pairs[_index]\<close> beyond the end of the list;
  \<^item> \<open>AssertionError\<close>: a failed \<^verbatim>\<open>assert\<close> (assertions are taken as enabled).
\<close>

datatype error =
    TypeError_InvalidInput string
  | TypeError_NotInteger
  | ValueError_ByteRange
  | ValueError_IntDigits
  | UnicodeEncodeError
  | UnicodeDecodeError
  | IndexError
  | AssertionError assertion

subsection \<open>Python built-ins used by the file\<close>

text \<open>\<^verbatim>\<open>str.encode("utf-8")\<close>: one code point, then the whole text. A surrogate
  (\<open>0xD800..0xDFFF\<close>) has no encoding and the call raises.\<close>

definition utf8_encode_cp :: "nat \<Rightarrow> bytes option" where
  "utf8_encode_cp c =
     (if c < 0x80 then Some [char_of c]
      else if c < 0x800 then Some [char_of (0xC0 + c div 64), char_of (0x80 + c mod 64)]
      else if c < 0x10000 then
        (if 0xD800 \<le> c \<and> c \<le> 0xDFFF then None
         else Some [char_of (0xE0 + c div 4096), char_of (0x80 + (c div 64) mod 64),
                    char_of (0x80 + c mod 64)])
      else if c < 0x110000 then
        Some [char_of (0xF0 + c div 262144), char_of (0x80 + (c div 4096) mod 64),
              char_of (0x80 + (c div 64) mod 64), char_of (0x80 + c mod 64)]
      else None)"

fun utf8_encode :: "pystr \<Rightarrow> bytes option" where
  "utf8_encode [] = Some []"
| "utf8_encode (c # cs) =
     (case utf8_encode_cp c of
        None \<Rightarrow> None
      | Some bs \<Rightarrow> (case utf8_encode cs of None \<Rightarrow> None | Some rest \<Rightarrow> Some (bs @ rest)))"

definition encode :: "pystr \<Rightarrow> error + bytes" where
  "encode t = (case utf8_encode t of None \<Rightarrow> Inl UnicodeEncodeError | Some bs \<Rightarrow> Inr bs)"

text \<open>\<^verbatim>\<open>bytes.decode("utf-8")\<close>, strict: the first code point of a byte list and the bytes
  after it. Overlong forms, surrogates, values above \<open>0x10FFFF\<close>, stray continuation bytes
  and truncated sequences are refused.\<close>

definition is_cont :: "nat \<Rightarrow> bool" where
  "is_cont b \<longleftrightarrow> 0x80 \<le> b \<and> b < 0xC0"

fun utf8_decode_cp :: "nat list \<Rightarrow> (nat \<times> nat) option" where
  "utf8_decode_cp [] = None"
| "utf8_decode_cp (b0 # bs) =
     (if b0 < 0x80 then Some (b0, 1)
      else if 0xC2 \<le> b0 \<and> b0 < 0xE0 then
        (case bs of
           b1 # _ \<Rightarrow> if is_cont b1 then Some ((b0 - 0xC0) * 64 + (b1 - 0x80), 2) else None
         | _ \<Rightarrow> None)
      else if 0xE0 \<le> b0 \<and> b0 < 0xF0 then
        (case bs of
           b1 # b2 # _ \<Rightarrow>
             (let c = (b0 - 0xE0) * 4096 + (b1 - 0x80) * 64 + (b2 - 0x80)
              in if is_cont b1 \<and> is_cont b2 \<and> 0x800 \<le> c \<and> \<not> (0xD800 \<le> c \<and> c \<le> 0xDFFF)
                 then Some (c, 3) else None)
         | _ \<Rightarrow> None)
      else if 0xF0 \<le> b0 \<and> b0 < 0xF5 then
        (case bs of
           b1 # b2 # b3 # _ \<Rightarrow>
             (let c = (b0 - 0xF0) * 262144 + (b1 - 0x80) * 4096 + (b2 - 0x80) * 64 + (b3 - 0x80)
              in if is_cont b1 \<and> is_cont b2 \<and> is_cont b3 \<and> 0x10000 \<le> c \<and> c < 0x110000
                 then Some (c, 4) else None)
         | _ \<Rightarrow> None)
      else None)"

function utf8_decode_nat :: "nat list \<Rightarrow> pystr option" where
  "utf8_decode_nat bs =
     (if bs = [] then Some []
      else (case utf8_decode_cp bs of
              None \<Rightarrow> None
            | Some (c, n) \<Rightarrow>
                (case utf8_decode_nat (drop n bs) of None \<Rightarrow> None | Some cs \<Rightarrow> Some (c # cs))))"
  by pat_completeness auto
termination
proof (relation "measure length")
  show "wf (measure length)" by simp
next
  fix bs :: "nat list" and x2 x y
  assume ne: "bs \<noteq> []" and d: "utf8_decode_cp bs = Some x2" and x: "(x, y) = x2"
  have "0 < y"
    using d x by (cases bs) (auto split: if_splits list.splits simp: Let_def)
  with ne show "(drop y bs, bs) \<in> measure length" by simp
qed

declare utf8_decode_nat.simps [simp del]

definition utf8_decode :: "bytes \<Rightarrow> pystr option" where
  "utf8_decode bs = utf8_decode_nat (map of_char bs)"

definition decode :: "bytes \<Rightarrow> error + pystr" where
  "decode bs = (case utf8_decode bs of None \<Rightarrow> Inl UnicodeDecodeError | Some t \<Rightarrow> Inr t)"

text \<open>A text literal of the source, for ASCII literals written as Isabelle strings.\<close>

definition ascii :: "string \<Rightarrow> pystr" where
  "ascii s = map of_char s"

text \<open>\<^verbatim>\<open>str(n)\<close> for an \<^verbatim>\<open>int\<close>: the decimal numeral, with a minus sign when negative.
  CPython (3.11, and the later releases of 3.7 to 3.10) refuses the conversion with a
  \<^verbatim>\<open>ValueError\<close> when the numeral has more than \<^verbatim>\<open>sys.get_int_max_str_digits()\<close> digits, the
  sign not counted; the interpreter's default, 4300, is taken.\<close>

function digits :: "nat \<Rightarrow> pystr" where
  "digits n = (if n < 10 then [48 + n] else digits (n div 10) @ [48 + n mod 10])"
  by pat_completeness auto
termination
  by (relation "measure id") auto

declare digits.simps [simp del]

definition decimal :: "int \<Rightarrow> pystr" where
  "decimal i = (if i < 0 then 45 # digits (nat (- i)) else digits (nat i))"

definition int_max_str_digits :: nat where
  "int_max_str_digits = 4300"

definition str_int :: "int \<Rightarrow> error + pystr" where
  "str_int i =
     (if int_max_str_digits < length (digits (nat \<bar>i\<bar>)) then Inl ValueError_IntDigits
      else Inr (decimal i))"


text \<open>The constructor \<^verbatim>\<open>bytes(command)\<close> on a list or tuple: each element is asked for its
  integer value (\<^verbatim>\<open>__index__\<close>, which \<^verbatim>\<open>int\<close>, its subclasses and some other types have),
  which must lie in \<open>0..255\<close>; an element without \<^verbatim>\<open>__index__\<close> is a \<^verbatim>\<open>TypeError\<close>, and the
  first element that fails decides the exception.\<close>

definition byte_of_int :: "int \<Rightarrow> error + char" where
  "byte_of_int i = (if 0 \<le> i \<and> i < 256 then Inr (char_of i) else Inl ValueError_ByteRange)"

fun byte_of_elem :: "pyval \<Rightarrow> error + char" where
  "byte_of_elem (IntV i) = byte_of_int i"
| "byte_of_elem (IntSub v t) = byte_of_int v"
| "byte_of_elem (Other n (Some v)) = byte_of_int v"
| "byte_of_elem _ = Inl TypeError_NotInteger"

fun bytes_of_seq :: "pyval list \<Rightarrow> error + bytes" where
  "bytes_of_seq [] = Inr []"
| "bytes_of_seq (x # xs) =
     (case byte_of_elem x of
        Inl e \<Rightarrow> Inl e
      | Inr b \<Rightarrow> (case bytes_of_seq xs of Inl e \<Rightarrow> Inl e | Inr bs \<Rightarrow> Inr (b # bs)))"

text \<open>Slices \<^verbatim>\<open>b[:count]\<close> and \<^verbatim>\<open>b[count:]\<close> for an integer \<^verbatim>\<open>count\<close>: a negative bound
  counts from the end, and every bound is clipped to the length.\<close>

definition slice_bound :: "int \<Rightarrow> 'a list \<Rightarrow> nat" where
  "slice_bound count b = (if count < 0 then length b - nat (- count) else nat count)"

definition slice_to :: "int \<Rightarrow> 'a list \<Rightarrow> 'a list" where
  "slice_to count b = take (slice_bound count b) b"

definition slice_from :: "int \<Rightarrow> 'a list \<Rightarrow> 'a list" where
  "slice_from count b = drop (slice_bound count b) b"

subsection \<open>\<^verbatim>\<open>to_bytes\<close>\<close>

text \<open>The \<^verbatim>\<open>isinstance\<close> chain in its order. An instance of a subclass of \<^verbatim>\<open>int\<close>, a
  \<^verbatim>\<open>bool\<close> among them, passes the test \<^verbatim>\<open>isinstance(command, (int, float))\<close> and is rendered
  by \<^verbatim>\<open>str\<close> like the numbers.\<close>

fun to_bytes :: "pyval \<Rightarrow> error + bytes" where
  "to_bytes (Bytes b) = Inr b"
| "to_bytes NoneV = Inr []"
| "to_bytes (Str t) = encode t"
| "to_bytes (Seq xs) = bytes_of_seq xs"
| "to_bytes (IntV i) = (case str_int i of Inl e \<Rightarrow> Inl e | Inr t \<Rightarrow> encode t)"
| "to_bytes (IntSub v t) = encode t"
| "to_bytes (FloatV t) = encode t"
| "to_bytes (Other n ix) = Inl (TypeError_InvalidInput n)"

subsection \<open>\<^verbatim>\<open>ProtocolAdapter\<close>\<close>

text \<open>The fields \<^verbatim>\<open>comm_pairs\<close>, \<^verbatim>\<open>_read_buffer\<close>, \<^verbatim>\<open>_write_buffer\<close> and \<^verbatim>\<open>_index\<close>. The index
  starts at 0 and is only ever incremented, so it is a \<^typ>\<open>nat\<close>.\<close>

record adapter =
  comm_pairs :: "(pyval \<times> pyval) list"
  read_buffer :: bytes
  write_buffer :: bytes
  index :: nat

text \<open>A method mutates the object and then returns or raises: its model returns the
  outcome together with the object as the method leaves it, also when it raises.\<close>

type_synonym 'a outcome = "(error + 'a) \<times> adapter"

definition init :: "(pyval \<times> pyval) list \<Rightarrow> adapter" where
  "init pairs = \<lparr>comm_pairs = pairs, read_buffer = [], write_buffer = [], index = 0\<rparr>"

definition write_bytes :: "adapter \<Rightarrow> bytes \<Rightarrow> unit outcome" where
  "write_bytes s content =
     (let s1 = s\<lparr>write_buffer := write_buffer s @ content\<rparr> in
      if length (comm_pairs s1) \<le> index s1 then (Inl IndexError, s1)
      else
        (case comm_pairs s1 ! index s1 of (p_write, p_read) \<Rightarrow>
           (case to_bytes p_write of
              Inl e \<Rightarrow> (Inl e, s1)
            | Inr w \<Rightarrow>
                if write_buffer s1 = w then
                  if read_buffer s1 \<noteq> [] then
                    (Inl (AssertionError (UnreadResponse (read_buffer s1))), s1)
                  else
                    (let s2 = s1\<lparr>write_buffer := []\<rparr> in
                     case to_bytes p_read of
                       Inl e \<Rightarrow> (Inl e, s2)
                     | Inr r \<Rightarrow> (Inr (), s2\<lparr>read_buffer := r, index := index s2 + 1\<rparr>))
                else (Inr (), s1))))"

text \<open>The message of the \<^verbatim>\<open>assert\<close> in \<^verbatim>\<open>write\<close> reads \<^verbatim>\<open>comm_pairs[_index][0]\<close>, which is
  evaluated when the assertion fails and raises \<^verbatim>\<open>IndexError\<close> itself beyond the end.\<close>

definition "write" :: "adapter \<Rightarrow> pyval \<Rightarrow> unit outcome" where
  "write s command =
     (case to_bytes command of
        Inl e \<Rightarrow> (Inl e, s)
      | Inr content \<Rightarrow>
          (case write_bytes s content of
             (Inl e, s1) \<Rightarrow> (Inl e, s1)
           | (Inr _, s1) \<Rightarrow>
               if write_buffer s1 = [] then (Inr (), s1)
               else if length (comm_pairs s1) \<le> index s1 then (Inl IndexError, s1)
               else (Inl (AssertionError (WrittenNotExpected (write_buffer s1)
                            (fst (comm_pairs s1 ! index s1)))), s1)))"

definition read_bytes :: "adapter \<Rightarrow> int \<Rightarrow> bytes outcome" where
  "read_bytes s count =
     (if read_buffer s \<noteq> [] then
        (Inr (slice_to count (read_buffer s)),
         s\<lparr>read_buffer := slice_from count (read_buffer s)\<rparr>)
      else if length (comm_pairs s) \<le> index s then (Inl IndexError, s)
      else
        (case comm_pairs s ! index s of (p_write, p_read) \<Rightarrow>
           (case p_write of
              NoneV \<Rightarrow>
                (case to_bytes p_read of
                   Inl e \<Rightarrow> (Inl e, s)
                 | Inr r \<Rightarrow>
                     (Inr (slice_to count r),
                      s\<lparr>read_buffer := slice_from count r, index := index s + 1\<rparr>))
            | _ \<Rightarrow> (Inl (AssertionError UnexpectedRead), s))))"

definition read :: "adapter \<Rightarrow> pystr outcome" where
  "read s =
     (case read_bytes s (- 1) of
        (Inl e, s1) \<Rightarrow> (Inl e, s1)
      | (Inr b1, s1) \<Rightarrow>
          (case read_bytes s1 1 of
             (Inl e, s2) \<Rightarrow> (Inl e, s2)
           | (Inr b2, s2) \<Rightarrow>
               (case decode (b1 @ b2) of
                  Inl e \<Rightarrow> (Inl e, s2)
                | Inr t \<Rightarrow> (Inr t, s2))))"

section \<open>Properties\<close>

subsection \<open>Slices\<close>

lemma slice_to_nonneg: "0 \<le> count \<Longrightarrow> slice_to count b = take (nat count) b"
  by (simp add: slice_to_def slice_bound_def)

lemma slice_from_nonneg: "0 \<le> count \<Longrightarrow> slice_from count b = drop (nat count) b"
  by (simp add: slice_from_def slice_bound_def)

lemma slice_to_neg: "count < 0 \<Longrightarrow> slice_to count b = take (length b - nat (- count)) b"
  by (simp add: slice_to_def slice_bound_def)

lemma slice_from_neg: "count < 0 \<Longrightarrow> slice_from count b = drop (length b - nat (- count)) b"
  by (simp add: slice_from_def slice_bound_def)

lemma slice_to_from: "slice_to count b @ slice_from count b = b"
  by (simp add: slice_to_def slice_from_def)

subsection \<open>The branches of \<^verbatim>\<open>read_bytes\<close>\<close>

lemma read_bytes_buffered:
  "read_buffer s \<noteq> [] \<Longrightarrow>
   read_bytes s count =
     (Inr (slice_to count (read_buffer s)), s\<lparr>read_buffer := slice_from count (read_buffer s)\<rparr>)"
  by (simp add: read_bytes_def)

lemma read_bytes_exhausted:
  "read_buffer s = [] \<Longrightarrow> length (comm_pairs s) \<le> index s \<Longrightarrow>
   read_bytes s count = (Inl IndexError, s)"
  by (simp add: read_bytes_def)

lemma read_bytes_write_due:
  "read_buffer s = [] \<Longrightarrow> index s < length (comm_pairs s) \<Longrightarrow>
   fst (comm_pairs s ! index s) \<noteq> NoneV \<Longrightarrow>
   read_bytes s count = (Inl (AssertionError UnexpectedRead), s)"
  by (cases "comm_pairs s ! index s") (simp add: read_bytes_def split: pyval.splits)

lemma read_bytes_load:
  "read_buffer s = [] \<Longrightarrow> index s < length (comm_pairs s) \<Longrightarrow>
   comm_pairs s ! index s = (NoneV, p_read) \<Longrightarrow> to_bytes p_read = Inr r \<Longrightarrow>
   read_bytes s count =
     (Inr (slice_to count r), s\<lparr>read_buffer := slice_from count r, index := index s + 1\<rparr>)"
  by (simp add: read_bytes_def)

lemma read_bytes_load_fails:
  "read_buffer s = [] \<Longrightarrow> index s < length (comm_pairs s) \<Longrightarrow>
   comm_pairs s ! index s = (NoneV, p_read) \<Longrightarrow> to_bytes p_read = Inl e \<Longrightarrow>
   read_bytes s count = (Inl e, s)"
  by (simp add: read_bytes_def)

subsection \<open>Reading with a negative count\<close>

text \<open>
  Claim C1, as the specification states it: for a negative \<open>count\<close>, \<^verbatim>\<open>read_bytes\<close> returns
  all of the buffered bytes, leaving the read buffer empty, and on an empty buffer with no
  write expected it loads the next canned read and returns the whole of it.

  The code slices with \<^verbatim>\<open>[:count]\<close> and \<^verbatim>\<open>[count:]\<close>, and a negative bound counts from the
  end: after \<^verbatim>\<open>write("CMD")\<close> on the pair \<^verbatim>\<open>(b"CMD", b"42")\<close> the buffer holds \<^verbatim>\<open>b"42"\<close>, and
  \<^verbatim>\<open>read_bytes(-1)\<close> returns \<^verbatim>\<open>b"4"\<close> and keeps \<^verbatim>\<open>b"2"\<close>; the same happens on the
  on-demand load of the pair \<^verbatim>\<open>(None, b"42")\<close>.
\<close>

theorem read_bytes_negative_count_counterexample:
  "read_bytes (snd (write (init [(Bytes ''CMD'', Bytes ''42'')]) (Str (ascii ''CMD'')))) (- 1) =
     (Inr ''4'', \<lparr>comm_pairs = [(Bytes ''CMD'', Bytes ''42'')], read_buffer = ''2'',
                write_buffer = [], index = 1\<rparr>)
   \<and> read_bytes (init [(NoneV, Bytes ''42'')]) (- 1) =
     (Inr ''4'', \<lparr>comm_pairs = [(NoneV, Bytes ''42'')], read_buffer = ''2'',
                write_buffer = [], index = 1\<rparr>)"
  by code_simp

text \<open>
  Claim C1, amended: for a negative \<open>count = - k\<close>, \<^verbatim>\<open>read_bytes\<close> returns the buffered bytes
  without their last \<open>k\<close>. If the read buffer is not empty, the buffer without its last
  \<open>k\<close> bytes is returned (nothing when it holds at most \<open>k\<close>) and those last bytes stay in
  the buffer; if it is empty and the current pair expects no write, the canned read is
  converted and loaded, the index advances by one, the canned read without its last \<open>k\<close>
  bytes is returned and its last \<open>k\<close> bytes stay in the buffer.
\<close>

theorem read_bytes_negative_count:
  assumes "count < 0"
  shows "(read_buffer s \<noteq> [] \<longrightarrow>
            read_bytes s count =
              (Inr (take (length (read_buffer s) - nat (- count)) (read_buffer s)),
               s\<lparr>read_buffer := drop (length (read_buffer s) - nat (- count)) (read_buffer s)\<rparr>))
       \<and> (read_buffer s = [] \<and> index s < length (comm_pairs s)
            \<and> comm_pairs s ! index s = (NoneV, p_read) \<and> to_bytes p_read = Inr r \<longrightarrow>
            read_bytes s count =
              (Inr (take (length r - nat (- count)) r),
               s\<lparr>read_buffer := drop (length r - nat (- count)) r, index := index s + 1\<rparr>))"
  using assms
  by (simp add: read_bytes_buffered read_bytes_load slice_to_neg slice_from_neg)

theorem read_bytes_negative_count_witness:
  "read_bytes \<lparr>comm_pairs = [(Bytes ''CMD'', Bytes ''ABCDE'')], read_buffer = ''ABCDE'',
                write_buffer = [], index = 1\<rparr> (- 2) =
     (Inr ''ABC'', \<lparr>comm_pairs = [(Bytes ''CMD'', Bytes ''ABCDE'')], read_buffer = ''DE'',
                write_buffer = [], index = 1\<rparr>)
   \<and> read_bytes (init [(NoneV, Bytes ''ABCDE'')]) (- 2) =
     (Inr ''ABC'', \<lparr>comm_pairs = [(NoneV, Bytes ''ABCDE'')], read_buffer = ''DE'',
                write_buffer = [], index = 1\<rparr>)"
  using read_bytes_negative_count [of "- 2" "\<lparr>comm_pairs = [(Bytes ''CMD'', Bytes ''ABCDE'')],
          read_buffer = ''ABCDE'', write_buffer = [], index = 1\<rparr>"]
        read_bytes_negative_count [of "- 2" "init [(NoneV, Bytes ''ABCDE'')]" "Bytes ''ABCDE''" "''ABCDE''"]
  by (simp add: init_def)

subsection \<open>Reading with a count that is not negative\<close>

text \<open>
  Claim C7: for every \<open>count \<ge> 0\<close> and non-empty read buffer, \<^verbatim>\<open>read_bytes(count)\<close> returns
  the first \<open>min count (length buffer)\<close> bytes of the buffer and removes exactly those, so
  the buffer is drained first in, first out. After \<^verbatim>\<open>write("CMD")\<close> on the pair
  \<^verbatim>\<open>(b"CMD", b"ABCDE")\<close>, three calls \<^verbatim>\<open>read_bytes(2)\<close> return \<^verbatim>\<open>b"AB"\<close>, \<^verbatim>\<open>b"CD"\<close>, \<^verbatim>\<open>b"E"\<close>
  in that order, and a fourth call finds the list of pairs exhausted and raises
  \<^verbatim>\<open>IndexError\<close>.
\<close>

theorem read_bytes_fifo:
  "(0 \<le> count \<and> read_buffer s \<noteq> [] \<longrightarrow>
      read_bytes s count =
        (Inr (take (min (nat count) (length (read_buffer s))) (read_buffer s)),
         s\<lparr>read_buffer := drop (min (nat count) (length (read_buffer s))) (read_buffer s)\<rparr>))
   \<and> (let s0 = snd (write (init [(Bytes ''CMD'', Bytes ''ABCDE'')]) (Str (ascii ''CMD'')));
           (r1, s1) = read_bytes s0 2; (r2, s2) = read_bytes s1 2;
           (r3, s3) = read_bytes s2 2; (r4, s4) = read_bytes s3 2
       in r1 = Inr ''AB'' \<and> r2 = Inr ''CD'' \<and> r3 = Inr ''E'' \<and> r4 = Inl IndexError)"
proof (intro conjI impI)
  assume h: "0 \<le> count \<and> read_buffer s \<noteq> []"
  have "take (min (nat count) (length (read_buffer s))) (read_buffer s) =
        take (nat count) (read_buffer s)"
    by (simp add: min_def)
  moreover have "drop (min (nat count) (length (read_buffer s))) (read_buffer s) =
        drop (nat count) (read_buffer s)"
    by (simp add: min_def)
  ultimately show "read_bytes s count =
        (Inr (take (min (nat count) (length (read_buffer s))) (read_buffer s)),
         s\<lparr>read_buffer := drop (min (nat count) (length (read_buffer s))) (read_buffer s)\<rparr>)"
    using h by (simp add: read_bytes_buffered slice_to_nonneg slice_from_nonneg)
next
  show "(let s0 = snd (write (init [(Bytes ''CMD'', Bytes ''ABCDE'')]) (Str (ascii ''CMD'')));
           (r1, s1) = read_bytes s0 2; (r2, s2) = read_bytes s1 2;
           (r3, s3) = read_bytes s2 2; (r4, s4) = read_bytes s3 2
       in r1 = Inr ''AB'' \<and> r2 = Inr ''CD'' \<and> r3 = Inr ''E'' \<and> r4 = Inl IndexError)"
    by code_simp
qed

theorem read_bytes_fifo_witness:
  "(0 :: int) \<le> 2
   \<and> read_buffer \<lparr>comm_pairs = [(Bytes ''CMD'', Bytes ''ABCDE'')], read_buffer = ''CDE'',
                write_buffer = [], index = 1\<rparr> \<noteq> []
   \<and> read_bytes \<lparr>comm_pairs = [(Bytes ''CMD'', Bytes ''ABCDE'')], read_buffer = ''CDE'',
                write_buffer = [], index = 1\<rparr> 2 =
     (Inr ''CD'', \<lparr>comm_pairs = [(Bytes ''CMD'', Bytes ''ABCDE'')], read_buffer = ''E'',
                write_buffer = [], index = 1\<rparr>)"
  using read_bytes_fifo [THEN conjunct1, of 2 "\<lparr>comm_pairs = [(Bytes ''CMD'', Bytes ''ABCDE'')],
          read_buffer = ''CDE'', write_buffer = [], index = 1\<rparr>"]
  by simp

text \<open>
  Claim C4: for every call \<^verbatim>\<open>read_bytes(count)\<close> with the read buffer empty and
  \<open>count \<ge> 0\<close>: it raises \<^verbatim>\<open>IndexError\<close> if the index is at or beyond the end of the list of
  pairs; it fails the assertion "Unexpected read without prior write" if the expected write
  of the current pair is not \<^verbatim>\<open>None\<close>; otherwise it converts the canned read of the pair,
  advances the index by one, returns the first \<open>count\<close> bytes of the converted read and
  keeps the rest in the read buffer. With \<^verbatim>\<open>(b"CMD", b"X")\<close> as the only pair, \<^verbatim>\<open>read()\<close>
  before any write fails that assertion.
\<close>

theorem read_bytes_on_demand:
  "(read_buffer s = [] \<and> 0 \<le> count \<and> length (comm_pairs s) \<le> index s \<longrightarrow>
      read_bytes s count = (Inl IndexError, s))
   \<and> (read_buffer s = [] \<and> 0 \<le> count \<and> index s < length (comm_pairs s)
        \<and> fst (comm_pairs s ! index s) \<noteq> NoneV \<longrightarrow>
      read_bytes s count = (Inl (AssertionError UnexpectedRead), s))
   \<and> (read_buffer s = [] \<and> 0 \<le> count \<and> index s < length (comm_pairs s)
        \<and> comm_pairs s ! index s = (NoneV, p_read) \<and> to_bytes p_read = Inr r \<longrightarrow>
      read_bytes s count =
        (Inr (take (nat count) r),
         s\<lparr>read_buffer := drop (nat count) r, index := index s + 1\<rparr>))
   \<and> read (init [(Bytes ''CMD'', Bytes ''X'')]) =
        (Inl (AssertionError UnexpectedRead), init [(Bytes ''CMD'', Bytes ''X'')])"
proof (intro conjI impI)
  show "read (init [(Bytes ''CMD'', Bytes ''X'')]) =
            (Inl (AssertionError UnexpectedRead), init [(Bytes ''CMD'', Bytes ''X'')])"
    by code_simp
qed (simp_all add: read_bytes_exhausted read_bytes_write_due read_bytes_load
       slice_to_nonneg slice_from_nonneg)

theorem read_bytes_on_demand_witness:
  "read_buffer (init []) = [] \<and> (0 :: int) \<le> 3
   \<and> read_bytes (init []) 3 = (Inl IndexError, init [])
   \<and> read_bytes (init [(Bytes ''CMD'', Bytes ''X'')]) 1 =
       (Inl (AssertionError UnexpectedRead), init [(Bytes ''CMD'', Bytes ''X'')])
   \<and> read_bytes (init [(NoneV, Bytes ''ABCDE'')]) 2 =
       (Inr ''AB'', \<lparr>comm_pairs = [(NoneV, Bytes ''ABCDE'')], read_buffer = ''CDE'',
                  write_buffer = [], index = 1\<rparr>)"
  using read_bytes_on_demand [THEN conjunct1, of "init []" 3]
        read_bytes_on_demand [THEN conjunct2, THEN conjunct1,
          of "init [(Bytes ''CMD'', Bytes ''X'')]" 1]
        read_bytes_on_demand [THEN conjunct2, THEN conjunct2, THEN conjunct1,
          of "init [(NoneV, Bytes ''ABCDE'')]" 2 "Bytes ''ABCDE''" "''ABCDE''"]
  by (simp add: init_def)

subsection \<open>The exceptions of \<^verbatim>\<open>to_bytes\<close>\<close>

lemma encode_error: "encode t = Inl e \<Longrightarrow> e = UnicodeEncodeError"
  by (auto simp: encode_def split: option.splits)

lemma str_int_error: "str_int i = Inl e \<Longrightarrow> e = ValueError_IntDigits"
  by (auto simp: str_int_def split: if_splits)

lemma byte_of_elem_error:
  "byte_of_elem x = Inl e \<Longrightarrow> e = TypeError_NotInteger \<or> e = ValueError_ByteRange"
  by (cases x rule: byte_of_elem.cases) (auto simp: byte_of_int_def split: if_splits)

lemma bytes_of_seq_error:
  "bytes_of_seq xs = Inl e \<Longrightarrow> e = TypeError_NotInteger \<or> e = ValueError_ByteRange"
  by (induction xs) (auto split: sum.splits dest: byte_of_elem_error)

lemma to_bytes_error:
  "to_bytes x = Inl e \<Longrightarrow>
   e = UnicodeEncodeError \<or> e = TypeError_NotInteger \<or> e = ValueError_ByteRange
   \<or> e = ValueError_IntDigits \<or> (\<exists>n ix. x = Other n ix \<and> e = TypeError_InvalidInput n)"
  by (cases x) (auto dest: encode_error bytes_of_seq_error str_int_error split: sum.splits)

lemma to_bytes_not_IndexError: "to_bytes x \<noteq> Inl IndexError"
  using to_bytes_error [of x IndexError] by auto

lemma to_bytes_not_AssertionError: "to_bytes x \<noteq> Inl (AssertionError a)"
  using to_bytes_error [of x "AssertionError a"] by auto

subsection \<open>The branches of \<^verbatim>\<open>write_bytes\<close>\<close>

lemma write_bytes_exhausted:
  "length (comm_pairs s) \<le> index s \<Longrightarrow>
   write_bytes s content = (Inl IndexError, s\<lparr>write_buffer := write_buffer s @ content\<rparr>)"
  by (simp add: write_bytes_def)

lemma write_bytes_bad_expected:
  "index s < length (comm_pairs s) \<Longrightarrow> comm_pairs s ! index s = (p_write, p_read) \<Longrightarrow>
   to_bytes p_write = Inl e \<Longrightarrow>
   write_bytes s content = (Inl e, s\<lparr>write_buffer := write_buffer s @ content\<rparr>)"
  by (simp add: write_bytes_def)

lemma write_bytes_partial:
  "index s < length (comm_pairs s) \<Longrightarrow> comm_pairs s ! index s = (p_write, p_read) \<Longrightarrow>
   to_bytes p_write = Inr w \<Longrightarrow> write_buffer s @ content \<noteq> w \<Longrightarrow>
   write_bytes s content = (Inr (), s\<lparr>write_buffer := write_buffer s @ content\<rparr>)"
  by (simp add: write_bytes_def)

lemma write_bytes_unread:
  "index s < length (comm_pairs s) \<Longrightarrow> comm_pairs s ! index s = (p_write, p_read) \<Longrightarrow>
   to_bytes p_write = Inr w \<Longrightarrow> write_buffer s @ content = w \<Longrightarrow> read_buffer s \<noteq> [] \<Longrightarrow>
   write_bytes s content =
     (Inl (AssertionError (UnreadResponse (read_buffer s))),
      s\<lparr>write_buffer := write_buffer s @ content\<rparr>)"
  by (simp add: write_bytes_def)

lemma write_bytes_match:
  "index s < length (comm_pairs s) \<Longrightarrow> comm_pairs s ! index s = (p_write, p_read) \<Longrightarrow>
   to_bytes p_write = Inr w \<Longrightarrow> write_buffer s @ content = w \<Longrightarrow> read_buffer s = [] \<Longrightarrow>
   to_bytes p_read = Inr r \<Longrightarrow>
   write_bytes s content =
     (Inr (), s\<lparr>write_buffer := [], read_buffer := r, index := index s + 1\<rparr>)"
  by (simp add: write_bytes_def)

lemma write_bytes_bad_canned:
  "index s < length (comm_pairs s) \<Longrightarrow> comm_pairs s ! index s = (p_write, p_read) \<Longrightarrow>
   to_bytes p_write = Inr w \<Longrightarrow> write_buffer s @ content = w \<Longrightarrow> read_buffer s = [] \<Longrightarrow>
   to_bytes p_read = Inl e \<Longrightarrow>
   write_bytes s content = (Inl e, s\<lparr>write_buffer := []\<rparr>)"
  by (simp add: write_bytes_def)

lemma write_bytes_IndexError_iff:
  "fst (write_bytes s content) = Inl IndexError \<longleftrightarrow> length (comm_pairs s) \<le> index s"
  by (auto simp: write_bytes_def Let_def to_bytes_not_IndexError split: prod.splits sum.splits)

lemma write_bytes_UnreadResponse_iff:
  "fst (write_bytes s content) = Inl (AssertionError (UnreadResponse b)) \<longleftrightarrow>
     index s < length (comm_pairs s)
     \<and> to_bytes (fst (comm_pairs s ! index s)) = Inr (write_buffer s @ content)
     \<and> read_buffer s \<noteq> [] \<and> b = read_buffer s"
  by (auto simp: write_bytes_def Let_def to_bytes_not_AssertionError split: prod.splits sum.splits)

lemma write_bytes_not_WrittenNotExpected:
  "fst (write_bytes s content) \<noteq> Inl (AssertionError (WrittenNotExpected b e))"
  by (auto simp: write_bytes_def Let_def to_bytes_not_AssertionError split: prod.splits sum.splits)

lemma write_bytes_pending:
  "write_bytes s content = (Inr u, s1) \<Longrightarrow> write_buffer s1 \<noteq> [] \<Longrightarrow>
   index s < length (comm_pairs s) \<and> s1 = s\<lparr>write_buffer := write_buffer s @ content\<rparr>"
  by (auto simp: write_bytes_def Let_def split: prod.splits sum.splits if_splits)

subsection \<open>Completing an expected write\<close>

text \<open>
  Claim C3: for every call of \<^verbatim>\<open>write_bytes\<close> after which the write buffer equals the
  converted expected write of the current pair: if the read buffer is not empty the call
  fails the assertion "Unread response ... present when writing"; otherwise the write
  buffer is reset to empty, the read buffer is set to the converted canned read of that
  pair, and the index advances by exactly one. With the pairs
  \<^verbatim>\<open>[(b"A", b"1"), (b"B", b"2")]\<close>, writing \<^verbatim>\<open>"A"\<close> and then \<^verbatim>\<open>"B"\<close> without reading \<^verbatim>\<open>"1"\<close>
  fails that assertion.
\<close>

theorem write_bytes_complete:
  "(index s < length (comm_pairs s) \<and> comm_pairs s ! index s = (p_write, p_read)
      \<and> to_bytes p_write = Inr (write_buffer s @ content) \<and> read_buffer s \<noteq> [] \<longrightarrow>
      write_bytes s content =
        (Inl (AssertionError (UnreadResponse (read_buffer s))),
         s\<lparr>write_buffer := write_buffer s @ content\<rparr>))
   \<and> (index s < length (comm_pairs s) \<and> comm_pairs s ! index s = (p_write, p_read)
        \<and> to_bytes p_write = Inr (write_buffer s @ content) \<and> read_buffer s = []
        \<and> to_bytes p_read = Inr r \<longrightarrow>
      write_bytes s content =
        (Inr (), s\<lparr>write_buffer := [], read_buffer := r, index := index s + 1\<rparr>))
   \<and> (let (r1, s1) = write (init [(Bytes ''A'', Bytes ''1''), (Bytes ''B'', Bytes ''2'')])
                        (Str (ascii ''A''));
           (r2, s2) = write s1 (Str (ascii ''B''))
       in r1 = Inr () \<and> r2 = Inl (AssertionError (UnreadResponse ''1'')))"
proof (intro conjI impI)
  show "(let (r1, s1) = write (init [(Bytes ''A'', Bytes ''1''), (Bytes ''B'', Bytes ''2'')])
                        (Str (ascii ''A''));
           (r2, s2) = write s1 (Str (ascii ''B''))
       in r1 = Inr () \<and> r2 = Inl (AssertionError (UnreadResponse ''1'')))"
    by code_simp
qed (simp_all add: write_bytes_unread write_bytes_match)

theorem write_bytes_complete_witness:
  "index (init [(Bytes ''CMD'', Bytes ''42'')]) < length (comm_pairs (init [(Bytes ''CMD'', Bytes ''42'')]))
   \<and> to_bytes (Bytes ''CMD'') = Inr ''CMD''
   \<and> write_bytes ((init [(Bytes ''CMD'', Bytes ''42'')])\<lparr>write_buffer := ''CM''\<rparr>) ''D'' =
       (Inr (), \<lparr>comm_pairs = [(Bytes ''CMD'', Bytes ''42'')], read_buffer = ''42'',
                 write_buffer = [], index = 1\<rparr>)
   \<and> write_bytes \<lparr>comm_pairs = [(Bytes ''A'', Bytes ''1''), (Bytes ''B'', Bytes ''2'')],
                 read_buffer = ''1'', write_buffer = [], index = 1\<rparr> ''B'' =
       (Inl (AssertionError (UnreadResponse ''1'')),
        \<lparr>comm_pairs = [(Bytes ''A'', Bytes ''1''), (Bytes ''B'', Bytes ''2'')],
                 read_buffer = ''1'', write_buffer = ''B'', index = 1\<rparr>)"
  using write_bytes_complete [THEN conjunct2, THEN conjunct1,
          of "(init [(Bytes ''CMD'', Bytes ''42'')])\<lparr>write_buffer := ''CM''\<rparr>"
          "Bytes ''CMD''" "Bytes ''42''" "''D''" "''42''"]
        write_bytes_complete [THEN conjunct1,
          of "\<lparr>comm_pairs = [(Bytes ''A'', Bytes ''1''), (Bytes ''B'', Bytes ''2'')],
                 read_buffer = ''1'', write_buffer = [], index = 1\<rparr>"
          "Bytes ''B''" "Bytes ''2''" "''B''"]
  by (simp add: init_def)

subsection \<open>What an exception of \<^verbatim>\<open>write_bytes\<close> leaves behind\<close>

text \<open>
  Claim C10: \<^verbatim>\<open>write_bytes\<close> is not atomic on failure. Whenever it raises because the
  unread-response assertion fails on a completed match, or because the list of pairs is
  already exhausted when the current pair is looked up, the content passed to the call has
  already been appended to the write buffer and stays there; the index and the read buffer
  are unchanged. The first two conjuncts say when exactly each of the two exceptions is
  raised.
\<close>

theorem write_bytes_error_keeps_content:
  "(fst (write_bytes s content) = Inl IndexError \<longleftrightarrow> length (comm_pairs s) \<le> index s)
   \<and> (fst (write_bytes s content) = Inl (AssertionError (UnreadResponse b)) \<longleftrightarrow>
        index s < length (comm_pairs s)
        \<and> to_bytes (fst (comm_pairs s ! index s)) = Inr (write_buffer s @ content)
        \<and> read_buffer s \<noteq> [] \<and> b = read_buffer s)
   \<and> (fst (write_bytes s content) = Inl IndexError
        \<or> fst (write_bytes s content) = Inl (AssertionError (UnreadResponse b)) \<longrightarrow>
        snd (write_bytes s content) = s\<lparr>write_buffer := write_buffer s @ content\<rparr>)"
proof (intro conjI impI)
  assume "fst (write_bytes s content) = Inl IndexError
        \<or> fst (write_bytes s content) = Inl (AssertionError (UnreadResponse b))"
  then show "snd (write_bytes s content) = s\<lparr>write_buffer := write_buffer s @ content\<rparr>"
  proof
    assume "fst (write_bytes s content) = Inl IndexError"
    then have "length (comm_pairs s) \<le> index s"
      by (simp add: write_bytes_IndexError_iff)
    then show ?thesis by (simp add: write_bytes_exhausted)
  next
    assume "fst (write_bytes s content) = Inl (AssertionError (UnreadResponse b))"
    then have *: "index s < length (comm_pairs s)"
        "to_bytes (fst (comm_pairs s ! index s)) = Inr (write_buffer s @ content)"
        "read_buffer s \<noteq> []"
      by (simp_all add: write_bytes_UnreadResponse_iff)
    obtain pw pr where pair: "comm_pairs s ! index s = (pw, pr)"
      by (cases "comm_pairs s ! index s")
    with * show ?thesis
      by (simp add: write_bytes_unread [OF *(1) pair])
  qed
qed (rule write_bytes_IndexError_iff write_bytes_UnreadResponse_iff)+

theorem write_bytes_error_keeps_content_witness:
  "write_bytes ((init [])\<lparr>write_buffer := ''C''\<rparr>) ''MD'' =
     (Inl IndexError, (init [])\<lparr>write_buffer := ''CMD''\<rparr>)
   \<and> write_bytes \<lparr>comm_pairs = [(Bytes ''A'', Bytes ''1''), (Bytes ''B'', Bytes ''2'')],
                 read_buffer = ''1'', write_buffer = [], index = 1\<rparr> ''B'' =
     (Inl (AssertionError (UnreadResponse ''1'')),
      \<lparr>comm_pairs = [(Bytes ''A'', Bytes ''1''), (Bytes ''B'', Bytes ''2'')],
                 read_buffer = ''1'', write_buffer = ''B'', index = 1\<rparr>)"
  using write_bytes_error_keeps_content [of "(init [])\<lparr>write_buffer := ''C''\<rparr>" "''MD''" "[]"]
        write_bytes_error_keeps_content [of "\<lparr>comm_pairs = [(Bytes ''A'', Bytes ''1''), (Bytes ''B'', Bytes ''2'')],
                 read_buffer = ''1'', write_buffer = [], index = 1\<rparr>" "''B''" "''1''"]
  by (auto simp: init_def prod_eq_iff)

subsection \<open>Writes that do not match\<close>

text \<open>
  Claim C2, as the specification states it: whenever the write buffer, after the content
  is appended, is not a prefix of the converted expected write of the current pair, the
  call of \<^verbatim>\<open>write_bytes\<close> itself fails with a mismatch error.

  \<^verbatim>\<open>write_bytes\<close> compares the buffer with the expected write for equality only and has no
  other check: with the single pair \<^verbatim>\<open>(b"CMD", None)\<close>, \<^verbatim>\<open>write_bytes(b"XYZ")\<close> returns
  normally and leaves \<^verbatim>\<open>b"XYZ"\<close> in the write buffer.
\<close>

theorem write_bytes_mismatch_counterexample:
  "\<not> prefix ''XYZ'' ''CMD''
   \<and> to_bytes (Bytes ''CMD'') = Inr ''CMD''
   \<and> write_bytes (init [(Bytes ''CMD'', NoneV)]) ''XYZ'' =
       (Inr (), \<lparr>comm_pairs = [(Bytes ''CMD'', NoneV)], read_buffer = [],
                 write_buffer = ''XYZ'', index = 0\<rparr>)"
  by code_simp

lemma write_pending:
  assumes "to_bytes command = Inr content"
    and "index s < length (comm_pairs s)"
    and "write_bytes s content = (Inr (), s\<lparr>write_buffer := write_buffer s @ content\<rparr>)"
    and "write_buffer s @ content \<noteq> []"
  shows "write s command =
           (Inl (AssertionError (WrittenNotExpected (write_buffer s @ content)
                   (fst (comm_pairs s ! index s)))),
            s\<lparr>write_buffer := write_buffer s @ content\<rparr>)"
  using assms by (simp add: write_def)

text \<open>
  Claim C2, amended: whenever the write buffer, after the content is appended, is not a
  prefix of the converted expected write of the current pair, \<^verbatim>\<open>write_bytes\<close> returns
  normally, having only appended the content; it is \<^verbatim>\<open>write\<close> that fails, with the assertion
  "Written bytes ... do not match expected ...", which reports both the accumulated bytes
  and the expected write. With the single pair \<^verbatim>\<open>(b"CMD", None)\<close>, \<^verbatim>\<open>write("XYZ")\<close> fails
  with that assertion.
\<close>

theorem write_mismatch:
  "(index s < length (comm_pairs s) \<and> comm_pairs s ! index s = (p_write, p_read)
      \<and> to_bytes p_write = Inr w \<and> \<not> prefix (write_buffer s @ content) w \<longrightarrow>
      write_bytes s content = (Inr (), s\<lparr>write_buffer := write_buffer s @ content\<rparr>)
      \<and> (to_bytes command = Inr content \<longrightarrow>
           write s command =
             (Inl (AssertionError (WrittenNotExpected (write_buffer s @ content) p_write)),
              s\<lparr>write_buffer := write_buffer s @ content\<rparr>)))
   \<and> write (init [(Bytes ''CMD'', NoneV)]) (Str (ascii ''XYZ'')) =
        (Inl (AssertionError (WrittenNotExpected ''XYZ'' (Bytes ''CMD''))),
         \<lparr>comm_pairs = [(Bytes ''CMD'', NoneV)], read_buffer = [],
            write_buffer = ''XYZ'', index = 0\<rparr>)"
proof (intro conjI impI)
  assume h: "index s < length (comm_pairs s) \<and> comm_pairs s ! index s = (p_write, p_read)
      \<and> to_bytes p_write = Inr w \<and> \<not> prefix (write_buffer s @ content) w"
  then have i: "index s < length (comm_pairs s)"
    and p: "comm_pairs s ! index s = (p_write, p_read)"
    and w: "to_bytes p_write = Inr w"
    and ne: "write_buffer s @ content \<noteq> w" and nonempty: "write_buffer s @ content \<noteq> []"
    by auto
  show wb: "write_bytes s content = (Inr (), s\<lparr>write_buffer := write_buffer s @ content\<rparr>)"
    using i p w ne by (rule write_bytes_partial)
  assume "to_bytes command = Inr content"
  from write_pending [OF this i wb nonempty] p
  show "write s command =
          (Inl (AssertionError (WrittenNotExpected (write_buffer s @ content) p_write)),
           s\<lparr>write_buffer := write_buffer s @ content\<rparr>)"
    by simp
next
  show "write (init [(Bytes ''CMD'', NoneV)]) (Str (ascii ''XYZ'')) =
        (Inl (AssertionError (WrittenNotExpected ''XYZ'' (Bytes ''CMD''))),
         \<lparr>comm_pairs = [(Bytes ''CMD'', NoneV)], read_buffer = [],
            write_buffer = ''XYZ'', index = 0\<rparr>)"
    by code_simp
qed

theorem write_mismatch_witness:
  "\<not> prefix (write_buffer ((init [(Bytes ''CMD'', NoneV)])\<lparr>write_buffer := ''C''\<rparr>) @ ''XY'') ''CMD''
   \<and> write_bytes ((init [(Bytes ''CMD'', NoneV)])\<lparr>write_buffer := ''C''\<rparr>) ''XY'' =
       (Inr (), \<lparr>comm_pairs = [(Bytes ''CMD'', NoneV)], read_buffer = [],
                 write_buffer = ''CXY'', index = 0\<rparr>)
   \<and> write ((init [(Bytes ''CMD'', NoneV)])\<lparr>write_buffer := ''C''\<rparr>) (Bytes ''XY'') =
       (Inl (AssertionError (WrittenNotExpected ''CXY'' (Bytes ''CMD''))),
        \<lparr>comm_pairs = [(Bytes ''CMD'', NoneV)], read_buffer = [],
                 write_buffer = ''CXY'', index = 0\<rparr>)"
  using write_mismatch [THEN conjunct1, of "(init [(Bytes ''CMD'', NoneV)])\<lparr>write_buffer := ''C''\<rparr>"
          "Bytes ''CMD''" NoneV "''CMD''" "''XY''" "Bytes ''XY''"]
  by (simp add: init_def)

subsection \<open>The one-shot \<^verbatim>\<open>write\<close>\<close>

text \<open>
  Claim C5: for every command, \<^verbatim>\<open>write(command)\<close> converts the command, calls \<^verbatim>\<open>write_bytes\<close>
  with the converted bytes, and then fails its assertion exactly when the write buffer is
  not empty after that call (the message names the buffer and the expected write of the
  current pair, which is always there to be named). Starting from an empty write buffer
  with expected write \<^verbatim>\<open>b"CMD"\<close>, \<^verbatim>\<open>write("CM")\<close> alone fails the assertion, while
  \<^verbatim>\<open>write_bytes(b"CM")\<close> followed by \<^verbatim>\<open>write_bytes(b"D")\<close> succeeds and exposes the canned
  read \<^verbatim>\<open>"OK"\<close> to \<^verbatim>\<open>read()\<close>.
\<close>

theorem write_one_shot:
  "write s command =
     (case to_bytes command of
        Inl e \<Rightarrow> (Inl e, s)
      | Inr content \<Rightarrow>
          (case write_bytes s content of
             (Inl e, s1) \<Rightarrow> (Inl e, s1)
           | (Inr u, s1) \<Rightarrow>
               if write_buffer s1 = [] then (Inr (), s1)
               else (Inl (AssertionError (WrittenNotExpected (write_buffer s1)
                            (fst (comm_pairs s ! index s)))), s1)))
   \<and> ((\<exists>b e. fst (write s command) = Inl (AssertionError (WrittenNotExpected b e))) \<longleftrightarrow>
        (\<exists>content s1. to_bytes command = Inr content
            \<and> write_bytes s content = (Inr (), s1) \<and> write_buffer s1 \<noteq> []))
   \<and> (let s0 = init [(Bytes ''CMD'', Bytes ''OK'')];
           (r1, s1) = write_bytes s0 ''CM''; (r2, s2) = write_bytes s1 ''D''
       in write s0 (Str (ascii ''CM'')) =
            (Inl (AssertionError (WrittenNotExpected ''CM'' (Bytes ''CMD''))),
             s0\<lparr>write_buffer := ''CM''\<rparr>)
          \<and> r1 = Inr () \<and> r2 = Inr ()
          \<and> s2 = s0\<lparr>read_buffer := ''OK'', index := 1\<rparr>
          \<and> fst (read s2) = Inr (ascii ''OK''))"
proof (intro conjI)
  show eq: "write s command =
     (case to_bytes command of
        Inl e \<Rightarrow> (Inl e, s)
      | Inr content \<Rightarrow>
          (case write_bytes s content of
             (Inl e, s1) \<Rightarrow> (Inl e, s1)
           | (Inr u, s1) \<Rightarrow>
               if write_buffer s1 = [] then (Inr (), s1)
               else (Inl (AssertionError (WrittenNotExpected (write_buffer s1)
                            (fst (comm_pairs s ! index s)))), s1)))"
  proof (cases "to_bytes command")
    case (Inl e)
    then show ?thesis by (simp add: write_def)
  next
    case (Inr content)
    obtain r s1 where wb: "write_bytes s content = (r, s1)"
      by (cases "write_bytes s content")
    show ?thesis
    proof (cases r)
      case (Inl e)
      with Inr wb show ?thesis by (simp add: write_def)
    next
      case r: (Inr u)
      show ?thesis
      proof (cases "write_buffer s1 = []")
        case True
        with Inr wb r show ?thesis by (simp add: write_def)
      next
        case False
        from write_bytes_pending [OF wb [unfolded r] False]
        have "index s < length (comm_pairs s)" "s1 = s\<lparr>write_buffer := write_buffer s @ content\<rparr>"
          by simp_all
        with Inr wb r False show ?thesis by (simp add: write_def)
      qed
    qed
  qed
  show "(\<exists>b e. fst (write s command) = Inl (AssertionError (WrittenNotExpected b e))) \<longleftrightarrow>
        (\<exists>content s1. to_bytes command = Inr content
            \<and> write_bytes s content = (Inr (), s1) \<and> write_buffer s1 \<noteq> [])"
  proof -
    have nw: "write_bytes s content \<noteq> (Inl (AssertionError (WrittenNotExpected b e)), s1)"
      for content b e s1
      using write_bytes_not_WrittenNotExpected [of s content b e] by auto
    show ?thesis
      using to_bytes_not_AssertionError [of command] nw
      by (subst eq) (auto split: sum.splits prod.splits if_splits)
  qed
  show "(let s0 = init [(Bytes ''CMD'', Bytes ''OK'')];
           (r1, s1) = write_bytes s0 ''CM''; (r2, s2) = write_bytes s1 ''D''
       in write s0 (Str (ascii ''CM'')) =
            (Inl (AssertionError (WrittenNotExpected ''CM'' (Bytes ''CMD''))),
             s0\<lparr>write_buffer := ''CM''\<rparr>)
          \<and> r1 = Inr () \<and> r2 = Inr ()
          \<and> s2 = s0\<lparr>read_buffer := ''OK'', index := 1\<rparr>
          \<and> fst (read s2) = Inr (ascii ''OK''))"
    by code_simp
qed

theorem write_one_shot_witness:
  "write (init [(Bytes ''CMD'', Bytes ''OK'')]) (Bytes ''CM'') =
     (Inl (AssertionError (WrittenNotExpected ''CM'' (Bytes ''CMD''))),
      \<lparr>comm_pairs = [(Bytes ''CMD'', Bytes ''OK'')], read_buffer = [],
         write_buffer = ''CM'', index = 0\<rparr>)
   \<and> write (init [(Bytes ''CMD'', Bytes ''OK'')]) (Bytes ''CMD'') =
     (Inr (), \<lparr>comm_pairs = [(Bytes ''CMD'', Bytes ''OK'')], read_buffer = ''OK'',
         write_buffer = [], index = 1\<rparr>)"
  using write_one_shot [of "init [(Bytes ''CMD'', Bytes ''OK'')]" "Bytes ''CM''"]
        write_one_shot [of "init [(Bytes ''CMD'', Bytes ''OK'')]" "Bytes ''CMD''"]
  by (simp add: init_def write_bytes_def)

subsection \<open>The built-ins: decimal numerals and UTF-8\<close>











lemma foldl_digits: "foldl (\<lambda>a d. 10 * a + (d - 48)) 0 (digits n) = n"
proof (induction n rule: digits.induct)
  case (1 n)
  show ?case
  proof (cases "n < 10")
    case True
    then show ?thesis by (subst digits.simps) simp
  next
    case False
    with "1.IH" show ?thesis by (subst digits.simps) simp
  qed
qed


lemma split64: "(c :: nat) div 64 * 64 + c mod 64 = c"
  by simp

lemma join2: "(c :: nat) = d * 64 + r \<Longrightarrow> d = q * 64 + m \<Longrightarrow> q * 4096 + m * 64 + r = c"
  by simp

lemma split4096: "(c :: nat) div 4096 * 4096 + c div 64 mod 64 * 64 + c mod 64 = c"
proof -
  have a: "c div 64 div 64 = c div 4096"
    by (simp add: div_mult2_eq [symmetric])
  have "c div 64 div 64 * 4096 + c div 64 mod 64 * 64 + c mod 64 = c"
    by (rule join2 [OF split64 [symmetric] split64 [symmetric]])
  then show ?thesis by (simp only: a)
qed

lemma join3:
  "(c :: nat) = d * 4096 + m * 64 + r \<Longrightarrow> d = q * 64 + k \<Longrightarrow>
   q * 262144 + k * 4096 + m * 64 + r = c"
  by simp

lemma split262144:
  "(c :: nat) div 262144 * 262144 + c div 4096 mod 64 * 4096 + c div 64 mod 64 * 64 + c mod 64 = c"
proof -
  have a: "c div 4096 div 64 = c div 262144"
    by (simp add: div_mult2_eq [symmetric])
  have "c div 4096 div 64 * 262144 + c div 4096 mod 64 * 4096 + c div 64 mod 64 * 64 + c mod 64 = c"
    by (rule join3 [OF split4096 [symmetric] split64 [symmetric]])
  then show ?thesis by (simp only: a)
qed

lemma decode_cp1: "b < 0x80 \<Longrightarrow> utf8_decode_cp (b # rest) = Some (b, 1)"
  by simp

lemma decode_cp2:
  "2 \<le> q \<Longrightarrow> q < 32 \<Longrightarrow> r < 64 \<Longrightarrow>
   utf8_decode_cp ((0xC0 + q) # (0x80 + r) # rest) = Some (q * 64 + r, 2)"
  by (simp add: is_cont_def)

lemma decode_cp3:
  "q < 16 \<Longrightarrow> m < 64 \<Longrightarrow> r < 64 \<Longrightarrow> q * 4096 + m * 64 + r = c \<Longrightarrow>
   0x800 \<le> c \<Longrightarrow> \<not> (0xD800 \<le> c \<and> c \<le> 0xDFFF) \<Longrightarrow>
   utf8_decode_cp ((0xE0 + q) # (0x80 + m) # (0x80 + r) # rest) = Some (c, 3)"
  by (simp add: is_cont_def Let_def)

lemma decode_cp4:
  "q < 5 \<Longrightarrow> m < 64 \<Longrightarrow> n < 64 \<Longrightarrow> r < 64 \<Longrightarrow>
   q * 262144 + m * 4096 + n * 64 + r = c \<Longrightarrow> 0x10000 \<le> c \<Longrightarrow> c < 0x110000 \<Longrightarrow>
   utf8_decode_cp ((0xF0 + q) # (0x80 + m) # (0x80 + n) # (0x80 + r) # rest) = Some (c, 4)"
  by (simp add: is_cont_def Let_def)

lemma of_char_of_small: "n < 256 \<Longrightarrow> of_char (char_of n) = (n :: nat)"
  by simp

lemma decode_encode_cp:
  assumes "utf8_encode_cp c = Some e"
  shows "utf8_decode_cp (map of_char e @ rest) = Some (c, length e) \<and> e \<noteq> []"
proof -
  consider (a) "c < 0x80" | (b) "0x80 \<le> c" "c < 0x800"
    | (c) "0x800 \<le> c" "c < 0x10000" | (d) "0x10000 \<le> c" "c < 0x110000" | (e) "0x110000 \<le> c"
    by linarith
  then show ?thesis
  proof cases
    case a
    with assms have e: "e = [char_of c]" by (simp add: utf8_encode_cp_def)
    from a have "of_char (char_of c) = c" by (simp add: of_char_of_small)
    with a e show ?thesis by simp
  next
    case b
    with assms have e: "e = [char_of (0xC0 + c div 64), char_of (0x80 + c mod 64)]"
      by (simp add: utf8_encode_cp_def)
    have q: "2 \<le> c div 64" "c div 64 < 32" using b by simp_all
    have r: "c mod 64 < 64" by simp
    have "of_char (char_of (0xC0 + c div 64)) = 0xC0 + c div 64"
      using q by (intro of_char_of_small) simp
    moreover have "of_char (char_of (0x80 + c mod 64)) = 0x80 + c mod 64"
      using r by (intro of_char_of_small) simp
    ultimately have "map of_char e @ rest = (0xC0 + c div 64) # (0x80 + c mod 64) # rest"
      using e by simp
    with decode_cp2 [OF q r, of rest] split64 [of c] e show ?thesis by simp
  next
    case c
    with assms have ns: "\<not> (0xD800 \<le> c \<and> c \<le> 0xDFFF)"
      and e: "e = [char_of (0xE0 + c div 4096), char_of (0x80 + c div 64 mod 64),
                   char_of (0x80 + c mod 64)]"
      by (auto simp: utf8_encode_cp_def split: if_splits)
    have q: "c div 4096 < 16" using c by simp
    have m: "c div 64 mod 64 < 64" and r: "c mod 64 < 64" by simp_all
    have "of_char (char_of (0xE0 + c div 4096)) = 0xE0 + c div 4096"
      using q by (intro of_char_of_small) simp
    moreover have "of_char (char_of (0x80 + c div 64 mod 64)) = 0x80 + c div 64 mod 64"
      using m by (intro of_char_of_small) simp
    moreover have "of_char (char_of (0x80 + c mod 64)) = 0x80 + c mod 64"
      using r by (intro of_char_of_small) simp
    ultimately have l: "map of_char e @ rest =
        (0xE0 + c div 4096) # (0x80 + c div 64 mod 64) # (0x80 + c mod 64) # rest"
      using e by simp
    have "utf8_decode_cp ((0xE0 + c div 4096) # (0x80 + c div 64 mod 64) # (0x80 + c mod 64) # rest)
          = Some (c, 3)"
      by (rule decode_cp3 [OF q m r split4096 c(1) ns])
    with l e show ?thesis by simp
  next
    case d
    with assms have e: "e = [char_of (0xF0 + c div 262144), char_of (0x80 + c div 4096 mod 64),
                   char_of (0x80 + c div 64 mod 64), char_of (0x80 + c mod 64)]"
      by (auto simp: utf8_encode_cp_def split: if_splits)
    have q: "c div 262144 < 5" using d by simp
    have m: "c div 4096 mod 64 < 64" and n: "c div 64 mod 64 < 64" and r: "c mod 64 < 64"
      by simp_all
    have "of_char (char_of (0xF0 + c div 262144)) = 0xF0 + c div 262144"
      using q by (intro of_char_of_small) simp
    moreover have "of_char (char_of (0x80 + c div 4096 mod 64)) = 0x80 + c div 4096 mod 64"
      using m by (intro of_char_of_small) simp
    moreover have "of_char (char_of (0x80 + c div 64 mod 64)) = 0x80 + c div 64 mod 64"
      using n by (intro of_char_of_small) simp
    moreover have "of_char (char_of (0x80 + c mod 64)) = 0x80 + c mod 64"
      using r by (intro of_char_of_small) simp
    ultimately have l: "map of_char e @ rest =
        (0xF0 + c div 262144) # (0x80 + c div 4096 mod 64) # (0x80 + c div 64 mod 64)
          # (0x80 + c mod 64) # rest"
      using e by simp
    have "utf8_decode_cp ((0xF0 + c div 262144) # (0x80 + c div 4096 mod 64)
            # (0x80 + c div 64 mod 64) # (0x80 + c mod 64) # rest) = Some (c, 4)"
      by (rule decode_cp4 [OF q m n r split262144 d])
    with l e show ?thesis by simp
  next
    case e
    with assms show ?thesis by (simp add: utf8_encode_cp_def)
  qed
qed

lemma utf8_decode_nat_encode:
  "utf8_encode t = Some bs \<Longrightarrow> utf8_decode_nat (map of_char bs) = Some t"
proof (induction t arbitrary: bs)
  case Nil
  then show ?case by (simp add: utf8_decode_nat.simps)
next
  case (Cons c cs)
  from Cons.prems obtain e rest where e: "utf8_encode_cp c = Some e"
    and rest: "utf8_encode cs = Some rest" and bs: "bs = e @ rest"
    by (auto split: option.splits)
  from decode_encode_cp [OF e, of "map of_char rest"]
  have d: "utf8_decode_cp (map of_char e @ map of_char rest) = Some (c, length e)"
    and ne: "e \<noteq> []" by simp_all
  from Cons.IH [OF rest] have ih: "utf8_decode_nat (map of_char rest) = Some cs" .
  show ?case
    using d ne ih bs by (subst utf8_decode_nat.simps) simp
qed

lemma utf8_decode_encode: "utf8_encode t = Some bs \<Longrightarrow> utf8_decode bs = Some t"
  by (simp add: utf8_decode_def utf8_decode_nat_encode)

subsection \<open>The conversions of \<^verbatim>\<open>to_bytes\<close>\<close>







text \<open>
  Claim C9: \<^verbatim>\<open>to_bytes\<close> is idempotent. For every input \<open>x\<close> on which it succeeds, applying
  it again to the bytes it returned gives the same bytes, because bytes are returned
  unchanged; a failure of the first call is the failure of the composition.
\<close>

theorem to_bytes_idempotent:
  "(to_bytes x = Inr b \<longrightarrow> to_bytes (Bytes b) = to_bytes x)
   \<and> (case to_bytes x of Inl e \<Rightarrow> Inl e | Inr b \<Rightarrow> to_bytes (Bytes b)) = to_bytes x"
  by (simp split: sum.splits)

theorem to_bytes_idempotent_witness:
  "to_bytes (Str (ascii ''CMD'')) = Inr ''CMD''
   \<and> to_bytes (Bytes ''CMD'') = to_bytes (Str (ascii ''CMD''))"
proof -
  have a: "to_bytes (Str (ascii ''CMD'')) = Inr ''CMD''" by code_simp
  with to_bytes_idempotent [of "Str (ascii ''CMD'')" "''CMD''"] show ?thesis by simp
qed

subsection \<open>\<^verbatim>\<open>read\<close>\<close>

lemma read_bytes_minus_one:
  assumes "read_buffer s \<noteq> []"
  shows "read_bytes s (- 1) =
           (Inr (butlast (read_buffer s)), s\<lparr>read_buffer := [last (read_buffer s)]\<rparr>)"
proof -
  have "take (length (read_buffer s) - 1) (read_buffer s) = butlast (read_buffer s)"
    by (simp add: butlast_conv_take)
  moreover have "drop (length (read_buffer s) - 1) (read_buffer s) = [last (read_buffer s)]"
    using assms by (metis append_butlast_last_id append_eq_conv_conj length_butlast)
  ultimately show ?thesis
    using assms by (simp add: read_bytes_buffered slice_to_neg slice_from_neg)
qed

lemma read_bytes_one_of_one:
  "read_buffer s = [x] \<Longrightarrow> read_bytes s 1 = (Inr [x], s\<lparr>read_buffer := []\<rparr>)"
  by (simp add: read_bytes_buffered slice_to_nonneg slice_from_nonneg)

lemma read_unfold:
  "read s =
     (case read_bytes s (- 1) of
        (Inl e, s1) \<Rightarrow> (Inl e, s1)
      | (Inr b1, s1) \<Rightarrow>
          (case read_bytes s1 1 of
             (Inl e, s2) \<Rightarrow> (Inl e, s2)
           | (Inr b2, s2) \<Rightarrow>
               (case utf8_decode (b1 @ b2) of
                  None \<Rightarrow> (Inl UnicodeDecodeError, s2)
                | Some t \<Rightarrow> (Inr t, s2))))"
  by (simp add: read_def decode_def split: prod.splits sum.splits option.splits)

lemma read_buffered:
  assumes "read_buffer s \<noteq> []"
  shows "read s =
           (case utf8_decode (read_buffer s) of
              None \<Rightarrow> (Inl UnicodeDecodeError, s\<lparr>read_buffer := []\<rparr>)
            | Some t \<Rightarrow> (Inr t, s\<lparr>read_buffer := []\<rparr>))"
proof -
  have 1: "read_bytes s (- 1) =
           (Inr (butlast (read_buffer s)), s\<lparr>read_buffer := [last (read_buffer s)]\<rparr>)"
    using assms by (rule read_bytes_minus_one)
  have 2: "read_bytes (s\<lparr>read_buffer := [last (read_buffer s)]\<rparr>) 1 =
           (Inr [last (read_buffer s)], s\<lparr>read_buffer := []\<rparr>)"
    using read_bytes_one_of_one [of "s\<lparr>read_buffer := [last (read_buffer s)]\<rparr>"] by simp
  have 3: "butlast (read_buffer s) @ [last (read_buffer s)] = read_buffer s"
    using assms by simp
  show ?thesis
    by (subst read_unfold) (simp add: 1 2 3 del: append_butlast_last_id)
qed

text \<open>
  Claim C6: \<^verbatim>\<open>read()\<close> returns the UTF-8 decoding of the result of \<^verbatim>\<open>read_bytes(-1)\<close>
  followed by the result of \<^verbatim>\<open>read_bytes(1)\<close>, and raises \<^verbatim>\<open>UnicodeDecodeError\<close> when the
  concatenated bytes are not valid UTF-8. On a non-empty read buffer the two calls together
  return the whole buffer and leave it empty. For the single pair \<^verbatim>\<open>(b"CMD", b"42")\<close>,
  after \<^verbatim>\<open>write("CMD")\<close> succeeds, \<^verbatim>\<open>read()\<close> returns \<^verbatim>\<open>"42"\<close> and a further \<^verbatim>\<open>read()\<close>
  raises \<^verbatim>\<open>IndexError\<close>.
\<close>

theorem read_two_phase:
  "read s =
     (case read_bytes s (- 1) of
        (Inl e, s1) \<Rightarrow> (Inl e, s1)
      | (Inr b1, s1) \<Rightarrow>
          (case read_bytes s1 1 of
             (Inl e, s2) \<Rightarrow> (Inl e, s2)
           | (Inr b2, s2) \<Rightarrow>
               (case utf8_decode (b1 @ b2) of
                  None \<Rightarrow> (Inl UnicodeDecodeError, s2)
                | Some t \<Rightarrow> (Inr t, s2))))
   \<and> (read_buffer s \<noteq> [] \<longrightarrow>
        read s =
          (case utf8_decode (read_buffer s) of
             None \<Rightarrow> (Inl UnicodeDecodeError, s\<lparr>read_buffer := []\<rparr>)
           | Some t \<Rightarrow> (Inr t, s\<lparr>read_buffer := []\<rparr>)))
   \<and> (let s0 = init [(Bytes ''CMD'', Bytes ''42'')];
           (r1, s1) = write s0 (Str (ascii ''CMD''));
           (r2, s2) = read s1;
           (r3, s3) = read s2
       in r1 = Inr () \<and> r2 = Inr (ascii ''42'') \<and> r3 = Inl IndexError)"
proof (intro conjI impI)
  show "(let s0 = init [(Bytes ''CMD'', Bytes ''42'')];
           (r1, s1) = write s0 (Str (ascii ''CMD''));
           (r2, s2) = read s1;
           (r3, s3) = read s2
       in r1 = Inr () \<and> r2 = Inr (ascii ''42'') \<and> r3 = Inl IndexError)"
    by code_simp
qed (rule read_unfold, erule read_buffered)

theorem read_two_phase_witness:
  "read_buffer \<lparr>comm_pairs = [(Bytes ''CMD'', Bytes ''42'')], read_buffer = ''42'',
                write_buffer = [], index = 1\<rparr> \<noteq> []
   \<and> read \<lparr>comm_pairs = [(Bytes ''CMD'', Bytes ''42'')], read_buffer = ''42'',
                write_buffer = [], index = 1\<rparr> =
       (Inr (ascii ''42''), \<lparr>comm_pairs = [(Bytes ''CMD'', Bytes ''42'')], read_buffer = [],
                write_buffer = [], index = 1\<rparr>)
   \<and> read \<lparr>comm_pairs = [(NoneV, Bytes [CHR 0xC3, CHR 0x28])], read_buffer = [CHR 0xC3, CHR 0x28],
                write_buffer = [], index = 1\<rparr> =
       (Inl UnicodeDecodeError, \<lparr>comm_pairs = [(NoneV, Bytes [CHR 0xC3, CHR 0x28])],
                read_buffer = [], write_buffer = [], index = 1\<rparr>)"
proof (intro conjI)
  let ?s = "\<lparr>comm_pairs = [(Bytes ''CMD'', Bytes ''42'')], read_buffer = ''42'',
                write_buffer = [], index = 1\<rparr>"
  let ?t = "\<lparr>comm_pairs = [(NoneV, Bytes [CHR 0xC3, CHR 0x28])],
                read_buffer = [CHR 0xC3, CHR 0x28], write_buffer = [], index = 1\<rparr>"
  have a: "utf8_decode ''42'' = Some (ascii ''42'')" by code_simp
  have b: "utf8_decode [CHR 0xC3, CHR 0x28] = None" by code_simp
  show s: "read_buffer ?s \<noteq> []" by simp
  have t: "read_buffer ?t \<noteq> []" by simp
  from mp [OF read_two_phase [THEN conjunct2, THEN conjunct1] s]
  show "read ?s =
       (Inr (ascii ''42''), \<lparr>comm_pairs = [(Bytes ''CMD'', Bytes ''42'')], read_buffer = [],
                write_buffer = [], index = 1\<rparr>)"
    by (simp add: a)
  from mp [OF read_two_phase [THEN conjunct2, THEN conjunct1] t]
  show "read ?t =
       (Inl UnicodeDecodeError, \<lparr>comm_pairs = [(NoneV, Bytes [CHR 0xC3, CHR 0x28])],
                read_buffer = [], write_buffer = [], index = 1\<rparr>)"
    by (simp add: b)
qed

end
